theory Spec2Isabelle
  imports Main
begin

section \<open>Data model\<close>

text \<open>Python \<open>bytes\<close> and \<open>str\<close> are both lists of characters.\<close>

type_synonym bytes = string

text \<open>
  Modelled from the spec: \<open>ThumbnailInfo\<close> and \<open>FileInfo\<close> are declared in
  \<open>synapse/media/_base.py\<close>, which is not part of the excerpt. The fields are the ones the
  spec's data model lists and \<open>media_storage.py\<close> reads (\<open>thumbnail.type\<close> is the content
  type). \<open>server_name\<close> and \<open>thumbnail\<close> are optional.
\<close>

record thumbnail_info =
  width :: int
  height :: int
  "method" :: string
  type :: string

record file_info =
  server_name :: "string option"
  file_id :: string
  url_cache :: bool
  thumbnail :: "thumbnail_info option"

text \<open>
  \<open>MediaFilePaths\<close> (\<open>synapse/media/filepath.py\<close>) is not part of the excerpt either; the
  seven functions \<open>MediaStorage\<close> calls on it are parameters of the model, with the
  argument order of the calls in \<open>media_storage.py\<close>.
\<close>

record media_file_paths =
  url_cache_thumbnail_rel :: "string \<Rightarrow> int \<Rightarrow> int \<Rightarrow> string \<Rightarrow> string \<Rightarrow> string"
  url_cache_filepath_rel :: "string \<Rightarrow> string"
  remote_media_thumbnail_rel ::
    "string \<Rightarrow> string \<Rightarrow> int \<Rightarrow> int \<Rightarrow> string \<Rightarrow> string \<Rightarrow> string"
  remote_media_filepath_rel :: "string \<Rightarrow> string \<Rightarrow> string"
  local_media_thumbnail_rel :: "string \<Rightarrow> int \<Rightarrow> int \<Rightarrow> string \<Rightarrow> string \<Rightarrow> string"
  local_media_filepath_rel :: "string \<Rightarrow> string"
  remote_media_thumbnail_rel_legacy :: "string \<Rightarrow> string \<Rightarrow> int \<Rightarrow> int \<Rightarrow> string \<Rightarrow> string"

text \<open>
  What the code can raise. Every value but the last three is an instance of Python's
  \<open>Exception\<close>; \<open>KeyboardInterrupt\<close>, \<open>SystemExit\<close> and \<open>GeneratorExit\<close> derive from
  \<open>BaseException\<close> only, so a handler \<open>except Exception\<close> does not catch them.
  \<open>SpamMediaException\<close> is a subclass of \<open>NotFoundError\<close> and carries an error code.
\<close>

datatype exc =
    NotFoundError
  | SpamMediaException string
  | FileNotFoundError
  | FileExistsError
  | IsADirectoryError
  | NotADirectoryError
  | PermissionError
  | OtherException string
  | KeyboardInterrupt
  | SystemExit
  | GeneratorExit

fun isinstance_Exception :: "exc \<Rightarrow> bool" where
  "isinstance_Exception KeyboardInterrupt = False"
| "isinstance_Exception SystemExit = False"
| "isinstance_Exception GeneratorExit = False"
| "isinstance_Exception e = True"

fun isinstance_NotFoundError :: "exc \<Rightarrow> bool" where
  "isinstance_NotFoundError NotFoundError = True"
| "isinstance_NotFoundError (SpamMediaException c) = True"
| "isinstance_NotFoundError e = False"

text \<open>
  The verdict of the safety checker: the distinguished value \<open>NOT_SPAM\<close>, or a pair of an
  error code and additional fields (which \<open>store_into_file\<close> ignores).
\<close>

datatype spam_verdict = NOT_SPAM | Rejected string string

text \<open>\<open>spam_check[0]\<close>: the code of a rejection, the first character of the string \<open>NOT_SPAM\<close>.\<close>

fun verdict_code :: "spam_verdict \<Rightarrow> string" where
  "verdict_code (Rejected c extra) = c"
| "verdict_code NOT_SPAM = ''N''"

text \<open>
  An open file object: its name, the bytes of the file and the position of the next read or
  write.
\<close>

record py_file =
  name :: string
  data :: bytes
  pos :: nat

text \<open>
  A \<open>Responder\<close> streams bytes to a consumer. \<open>FileResponder\<close> wraps a local file opened
  for reading; any other responder is whatever a storage provider returns.
\<close>

datatype responder = FileResponder py_file | ProviderResponder bytes

fun payload :: "responder \<Rightarrow> bytes" where
  "payload (FileResponder f) = drop (pos f) (data f)"
| "payload (ProviderResponder b) = b"

text \<open>
  Modelled from the spec: the \<open>StorageProvider\<close> interface
  (\<open>synapse/media/storage_provider.py\<close>, not part of the excerpt) as the spec gives it:
  \<open>store(relativePath, descriptor)\<close> succeeds or fails, \<open>fetch(relativePath, descriptor)\<close>
  returns a Responder or absent. Both are calls into foreign code, so both may raise.
\<close>

record storage_provider =
  provider_store_file :: "string \<Rightarrow> file_info \<Rightarrow> exc option"
  provider_fetch :: "string \<Rightarrow> file_info \<Rightarrow> exc + responder option"

section \<open>The environment: the local disk and the record of calls\<close>

text \<open>
  Every call that leaves \<open>MediaStorage\<close> is recorded, in order: the calls to the operating
  system, to the safety checker, to the storage providers (with the provider that is called),
  and, for the chunked reader, to the callback and the clock.
\<close>

datatype event =
    Makedirs string
  | OpenWrite string
  | CloseWrite string
  | Exists string
  | OpenRead string
  | Remove string
  | SpamCheck string
  | ProviderStore storage_provider string
  | ProviderFetch storage_provider string
  | Callback bytes
  | Sleep nat

text \<open>
  The local disk: regular files with their bytes and directories, both by path. A path that
  is in \<open>dirs\<close> names a directory whatever \<open>files\<close> says. The operating system refuses to
  create or open for writing the paths in \<open>unwritable\<close>, to open for reading those in
  \<open>unreadable\<close> and to unlink those in \<open>unremovable\<close> (a \<open>PermissionError\<close>). The error
  classes are those of Linux.
\<close>

record world =
  files :: "string \<rightharpoonup> bytes"
  dirs :: "string set"
  unwritable :: "string set"
  unreadable :: "string set"
  unremovable :: "string set"
  trace :: "event list"

definition emit :: "event \<Rightarrow> world \<Rightarrow> world" where
  "emit ev w = w\<lparr>trace := trace w @ [ev]\<rparr>"

text \<open>\<open>posixpath.join\<close> with two arguments and \<open>posixpath.dirname\<close>.\<close>

definition os_path_join :: "string \<Rightarrow> string \<Rightarrow> string" where
  "os_path_join a b =
     (if take 1 b = ''/'' then b
      else if a = [] \<or> last a = CHR ''/'' then a @ b
      else a @ ''/'' @ b)"

definition os_path_dirname :: "string \<Rightarrow> string" where
  "os_path_dirname p =
     (let head = rev (dropWhile (\<lambda>c. c \<noteq> CHR ''/'') (rev p))
      in if head \<noteq> [] \<and> \<not> list_all (\<lambda>c. c = CHR ''/'') head
         then rev (dropWhile (\<lambda>c. c = CHR ''/'') (rev head))
         else head)"

text \<open>
  A path names a directory when, without its trailing slashes, it is the root or a member of
  \<open>dirs\<close>; it names a regular file when it has no trailing slash, is no directory and has
  bytes.
\<close>

definition rstrip_slashes :: "string \<Rightarrow> string" where
  "rstrip_slashes p = rev (dropWhile (\<lambda>c. c = CHR ''/'') (rev p))"

definition is_dir :: "world \<Rightarrow> string \<Rightarrow> bool" where
  "is_dir w p = (p \<noteq> [] \<and> (rstrip_slashes p = [] \<or> rstrip_slashes p \<in> dirs w))"

definition is_file :: "world \<Rightarrow> string \<Rightarrow> bool" where
  "is_file w p = (p \<noteq> [] \<and> last p \<noteq> CHR ''/'' \<and> p \<notin> dirs w \<and> files w p \<noteq> None)"

definition os_path_exists :: "string \<Rightarrow> world \<Rightarrow> bool \<times> world" where
  "os_path_exists p w = (is_dir w p \<or> is_file w p, emit (Exists p) w)"

text \<open>
  The directories on the way to \<open>d\<close>, \<open>d\<close> itself last: for \<open>/m/lc\<close> these are \<open>/m\<close> and
  \<open>/m/lc\<close>.
\<close>

fun dir_prefixes :: "string \<Rightarrow> string \<Rightarrow> string list" where
  "dir_prefixes seen [] = [seen]"
| "dir_prefixes seen (c # rest) =
     (if c = CHR ''/'' then seen # dir_prefixes (seen @ [c]) rest
      else dir_prefixes (seen @ [c]) rest)"

definition parents :: "string \<Rightarrow> string list" where
  "parents d = filter (\<lambda>p. p \<noteq> []) (map rstrip_slashes (dir_prefixes [] d))"

text \<open>
  \<open>os.makedirs(d, exist_ok=True)\<close> creates \<open>d\<close> and the directories on the way to it that
  are missing. It raises for the empty path, when one of the missing directories is a regular
  file (\<open>FileExistsError\<close> for \<open>d\<close> itself, \<open>NotADirectoryError\<close> on the way), and when the
  operating system refuses to create one of them.
\<close>

definition os_makedirs :: "string \<Rightarrow> world \<Rightarrow> (exc + unit) \<times> world" where
  "os_makedirs d w =
     (let w1 = emit (Makedirs d) w;
          missing = filter (\<lambda>p. p \<notin> dirs w) (parents d)
      in if d = [] then (Inl FileNotFoundError, w1)
         else if list_ex (\<lambda>p. files w p \<noteq> None) missing then
           (if list_ex (\<lambda>p. files w p \<noteq> None) (filter (\<lambda>p. p \<noteq> rstrip_slashes d) missing)
            then (Inl NotADirectoryError, w1)
            else (Inl FileExistsError, w1))
         else if list_ex (\<lambda>p. p \<in> unwritable w) missing then (Inl PermissionError, w1)
         else (Inr (), w1\<lparr>dirs := dirs w \<union> set missing\<rparr>))"

text \<open>
  \<open>open(p, "wb")\<close>: the file is created, or truncated when it exists. The open raises for
  the empty path, for a path that names a directory (one with a trailing slash, or an
  existing directory), when the directory of \<open>p\<close> does not exist, and when the operating
  system refuses it.
\<close>

definition open_wb :: "string \<Rightarrow> world \<Rightarrow> (exc + py_file) \<times> world" where
  "open_wb p w =
     (let w1 = emit (OpenWrite p) w
      in if p = [] then (Inl FileNotFoundError, w1)
         else if last p = CHR ''/'' \<or> p \<in> dirs w then (Inl IsADirectoryError, w1)
         else if os_path_dirname p \<noteq> [] \<and> \<not> is_dir w (os_path_dirname p)
           then (Inl FileNotFoundError, w1)
         else if p \<in> unwritable w then (Inl PermissionError, w1)
         else (Inr \<lparr>name = p, data = [], pos = 0\<rparr>, w1\<lparr>files := (files w)(p \<mapsto> [])\<rparr>))"

text \<open>Closing a file written through a handle leaves the handle's bytes on disk.\<close>

definition close_w :: "string \<Rightarrow> py_file \<Rightarrow> world \<Rightarrow> world" where
  "close_w p f w = (emit (CloseWrite p) w)\<lparr>files := (files w)(p \<mapsto> data f)\<rparr>"

text \<open>
  \<open>open(p, "rb")\<close> raises for a directory, when there is no file, and when the operating
  system refuses it.
\<close>

definition open_rb :: "string \<Rightarrow> world \<Rightarrow> (exc + py_file) \<times> world" where
  "open_rb p w =
     (let w1 = emit (OpenRead p) w
      in if is_dir w p then (Inl IsADirectoryError, w1)
         else if \<not> is_file w p then (Inl FileNotFoundError, w1)
         else if p \<in> unreadable w then (Inl PermissionError, w1)
         else (Inr \<lparr>name = p, data = the (files w p), pos = 0\<rparr>, w1))"

text \<open>\<open>os.remove(p)\<close> unlinks a regular file and raises in every other case.\<close>

definition os_remove :: "string \<Rightarrow> world \<Rightarrow> (exc + unit) \<times> world" where
  "os_remove p w =
     (let w1 = emit (Remove p) w
      in if is_dir w p then (Inl IsADirectoryError, w1)
         else if \<not> is_file w p then (Inl FileNotFoundError, w1)
         else if p \<in> unremovable w then (Inl PermissionError, w1)
         else (Inr (), w1\<lparr>files := (files w)(p := None)\<rparr>))"

text \<open>
  File objects. \<open>write\<close> puts the bytes at the position of the handle, over what is there,
  and moves the position past them; a position beyond the end is filled with zero bytes.
  \<open>read(n)\<close> returns at most \<open>n\<close> bytes from the position; \<open>seek\<close> sets the position.
\<close>

definition file_write :: "bytes \<Rightarrow> py_file \<Rightarrow> py_file" where
  "file_write b f =
     (if b = [] then f
      else (let old = data f @ replicate (pos f - length (data f)) (CHR 0x00)
            in f\<lparr>data := take (pos f) old @ b @ drop (pos f + length b) old,
                 pos := pos f + length b\<rparr>))"

definition file_read :: "nat \<Rightarrow> py_file \<Rightarrow> bytes \<times> py_file" where
  "file_read n f =
     (let chunk = take n (drop (pos f) (data f))
      in (chunk, f\<lparr>pos := pos f + length chunk\<rparr>))"

definition file_seek :: "nat \<Rightarrow> py_file \<Rightarrow> py_file" where
  "file_seek n f = f\<lparr>pos := n\<rparr>"

text \<open>
  \<open>shutil.copyfileobj\<close> reads the source from its position to its end and writes what it
  read to \<open>dest\<close>.
\<close>

definition shutil_copyfileobj :: "py_file \<Rightarrow> py_file \<Rightarrow> py_file \<times> py_file" where
  "shutil_copyfileobj source dest =
     (source\<lparr>pos := max (pos source) (length (data source))\<rparr>,
      file_write (drop (pos source) (data source)) dest)"

section \<open>MediaStorage\<close>

record readable_file_wrapper =
  wrapper_path :: string

record media_storage =
  local_media_directory :: string
  filepaths :: media_file_paths
  storage_providers :: "storage_provider list"
  check_media_file_for_spam ::
    "(string \<rightharpoonup> bytes) \<Rightarrow> readable_file_wrapper \<Rightarrow> file_info \<Rightarrow> exc + spam_verdict"

text \<open>Truthiness of an \<open>Optional[str]\<close>: \<open>None\<close> and the empty string are false.\<close>

definition truthy :: "string option \<Rightarrow> bool" where
  "truthy s = (case s of None \<Rightarrow> False | Some x \<Rightarrow> x \<noteq> [])"

subsection \<open>\<open>_file_info_to_path\<close>\<close>

definition file_info_to_path :: "media_file_paths \<Rightarrow> file_info \<Rightarrow> string" where
  "file_info_to_path fp file_info =
     (if url_cache file_info then
        (case thumbnail file_info of
           Some t \<Rightarrow>
             url_cache_thumbnail_rel fp (file_id file_info) (width t) (height t) (type t) (method t)
         | None \<Rightarrow> url_cache_filepath_rel fp (file_id file_info))
      else if truthy (server_name file_info) then
        (case thumbnail file_info of
           Some t \<Rightarrow>
             remote_media_thumbnail_rel fp (the (server_name file_info)) (file_id file_info)
               (width t) (height t) (type t) (method t)
         | None \<Rightarrow>
             remote_media_filepath_rel fp (the (server_name file_info)) (file_id file_info))
      else
        (case thumbnail file_info of
           Some t \<Rightarrow>
             local_media_thumbnail_rel fp (file_id file_info) (width t) (height t) (type t) (method t)
         | None \<Rightarrow> local_media_filepath_rel fp (file_id file_info)))"

subsection \<open>\<open>store_into_file\<close>, \<open>store_file\<close>\<close>

text \<open>
  The loop over \<open>storage_providers\<close>: each provider's store is called in turn, and a store
  that raises ends the loop.
\<close>

fun store_to_providers ::
  "storage_provider list \<Rightarrow> string \<Rightarrow> file_info \<Rightarrow> world \<Rightarrow> (exc + unit) \<times> world" where
  "store_to_providers [] path file_info w = (Inr (), w)"
| "store_to_providers (provider # rest) path file_info w =
     (let w1 = emit (ProviderStore provider path) w
      in case provider_store_file provider path file_info of
           Some e \<Rightarrow> (Inl e, w1)
         | None \<Rightarrow> store_to_providers rest path file_info w1)"

text \<open>
  The handler of \<open>store_into_file\<close>, \<open>except Exception as e\<close>, applied to what the \<open>try\<close>
  block raised: an instance of \<open>Exception\<close> is caught, \<open>os.remove\<close> is tried, an
  \<open>Exception\<close> of the removal is passed over and \<open>e\<close> is raised again. Anything else is not
  caught. The result is what propagates.
\<close>

definition store_into_file_except :: "string \<Rightarrow> exc \<Rightarrow> world \<Rightarrow> exc \<times> world" where
  "store_into_file_except fname e w =
     (if isinstance_Exception e then
        (case os_remove fname w of
           (Inl remove_error, w1) \<Rightarrow>
             if isinstance_Exception remove_error then (e, w1) else (remove_error, w1)
         | (Inr u, w1) \<Rightarrow> (e, w1))
      else (e, w))"

text \<open>
  The code of \<open>store_into_file\<close> up to its \<open>yield\<close>: what entering the context manager does
  and hands to the caller. \<open>os.makedirs\<close> is outside the \<open>try\<close> block, the \<open>open\<close> is
  inside.
\<close>

definition store_into_file_enter ::
  "media_storage \<Rightarrow> file_info \<Rightarrow> world \<Rightarrow> (exc + py_file \<times> string) \<times> world" where
  "store_into_file_enter ms file_info w =
     (let path = file_info_to_path (filepaths ms) file_info;
          fname = os_path_join (local_media_directory ms) path;
          dirname = os_path_dirname fname
      in case os_makedirs dirname w of
           (Inl e, w1) \<Rightarrow> (Inl e, w1)
         | (Inr u, w1) \<Rightarrow>
             (case open_wb fname w1 of
                (Inl e, w2) \<Rightarrow>
                  (let (e', w3) = store_into_file_except fname e w2 in (Inl e', w3))
              | (Inr f, w2) \<Rightarrow> (Inr (f, fname), w2)))"

text \<open>
  The rest of the \<open>try\<close> block, from the point where the caller's block ends: \<open>thrown\<close> is
  what the caller's block raised, if anything, and \<open>f\<close> the handle as the caller left it.
  The file is closed in both cases.
\<close>

definition store_into_file_try ::
  "media_storage \<Rightarrow> file_info \<Rightarrow> string \<Rightarrow> string \<Rightarrow> exc option \<Rightarrow> py_file \<Rightarrow> world
   \<Rightarrow> (exc + unit) \<times> world" where
  "store_into_file_try ms file_info path fname thrown f w =
     (let w1 = close_w fname f w
      in case thrown of
           Some e \<Rightarrow> (Inl e, w1)
         | None \<Rightarrow>
             (let w2 = emit (SpamCheck fname) w1
              in case check_media_file_for_spam ms (files w2) \<lparr>wrapper_path = fname\<rparr> file_info of
                   Inl e \<Rightarrow> (Inl e, w2)
                 | Inr spam_check \<Rightarrow>
                     if spam_check \<noteq> NOT_SPAM
                     then (Inl (SpamMediaException (verdict_code spam_check)), w2)
                     else store_to_providers (storage_providers ms) path file_info w2))"

text \<open>
  \<open>async with store_into_file(file_info) as (f, fname): body\<close>. The caller's block gets the
  handle and the file name, writes into the handle and may raise; \<open>'c\<close> is the caller's own
  state. On success the result is the yielded \<open>fname\<close>.
\<close>

definition store_into_file ::
  "media_storage \<Rightarrow> file_info \<Rightarrow> (py_file \<times> string \<Rightarrow> 'c \<Rightarrow> exc option \<times> py_file \<times> 'c) \<Rightarrow> 'c
   \<Rightarrow> world \<Rightarrow> (exc + string) \<times> 'c \<times> world" where
  "store_into_file ms file_info body c w =
     (let path = file_info_to_path (filepaths ms) file_info
      in case store_into_file_enter ms file_info w of
           (Inl e, w1) \<Rightarrow> (Inl e, c, w1)
         | (Inr (f, fname), w1) \<Rightarrow>
             (let (thrown, f', c') = body (f, fname) c;
                  (r, w2) = store_into_file_try ms file_info path fname thrown f' w1
              in case r of
                   Inl e \<Rightarrow>
                     (let (e', w3) = store_into_file_except fname e w2 in (Inl e', c', w3))
                 | Inr u \<Rightarrow> (Inr fname, c', w2)))"

definition write_file_synchronously :: "py_file \<Rightarrow> py_file \<Rightarrow> py_file \<times> py_file" where
  "write_file_synchronously source dest = shutil_copyfileobj (file_seek 0 source) dest"

definition write_to_file :: "py_file \<Rightarrow> py_file \<Rightarrow> py_file \<times> py_file" where
  "write_to_file source output = write_file_synchronously source output"

definition store_file ::
  "media_storage \<Rightarrow> py_file \<Rightarrow> file_info \<Rightarrow> world \<Rightarrow> (exc + string) \<times> py_file \<times> world" where
  "store_file ms source file_info w =
     store_into_file ms file_info
       (\<lambda>(f, fname) src. let (src', f') = write_to_file src f in (None, f', src'))
       source w"

subsection \<open>\<open>fetch_media\<close>\<close>

definition is_remote_thumbnail :: "file_info \<Rightarrow> bool" where
  "is_remote_thumbnail file_info =
     (thumbnail file_info \<noteq> None \<and> truthy (server_name file_info))"

definition legacy_path :: "media_file_paths \<Rightarrow> file_info \<Rightarrow> string" where
  "legacy_path fp file_info =
     (let t = the (thumbnail file_info)
      in remote_media_thumbnail_rel_legacy fp (the (server_name file_info)) (file_id file_info)
           (width t) (height t) (type t))"

definition fetch_media_paths :: "media_storage \<Rightarrow> file_info \<Rightarrow> string list" where
  "fetch_media_paths ms file_info =
     [file_info_to_path (filepaths ms) file_info] @
     (if is_remote_thumbnail file_info then [legacy_path (filepaths ms) file_info] else [])"

text \<open>The first loop of \<open>fetch_media\<close>, over the candidate paths on the local disk.\<close>

fun fetch_local :: "string \<Rightarrow> string list \<Rightarrow> world \<Rightarrow> (exc + responder option) \<times> world" where
  "fetch_local dir [] w = (Inr None, w)"
| "fetch_local dir (p # paths) w =
     (let local_path = os_path_join dir p;
          (found, w1) = os_path_exists local_path w
      in if found then
           (case open_rb local_path w1 of
              (Inl e, w2) \<Rightarrow> (Inl e, w2)
            | (Inr f, w2) \<Rightarrow> (Inr (Some (FileResponder f)), w2))
         else fetch_local dir paths w1)"

text \<open>The inner loop of the second: one provider, the candidate paths in order.\<close>

fun fetch_paths ::
  "storage_provider \<Rightarrow> string list \<Rightarrow> file_info \<Rightarrow> world \<Rightarrow> (exc + responder option) \<times> world" where
  "fetch_paths provider [] file_info w = (Inr None, w)"
| "fetch_paths provider (p # paths) file_info w =
     (let w1 = emit (ProviderFetch provider p) w
      in case provider_fetch provider p file_info of
           Inl e \<Rightarrow> (Inl e, w1)
         | Inr (Some res) \<Rightarrow> (Inr (Some res), w1)
         | Inr None \<Rightarrow> fetch_paths provider paths file_info w1)"

fun fetch_providers ::
  "storage_provider list \<Rightarrow> string list \<Rightarrow> file_info \<Rightarrow> world
   \<Rightarrow> (exc + responder option) \<times> world" where
  "fetch_providers [] paths file_info w = (Inr None, w)"
| "fetch_providers (provider # rest) paths file_info w =
     (case fetch_paths provider paths file_info w of
        (Inl e, w1) \<Rightarrow> (Inl e, w1)
      | (Inr (Some res), w1) \<Rightarrow> (Inr (Some res), w1)
      | (Inr None, w1) \<Rightarrow> fetch_providers rest paths file_info w1)"

definition fetch_media ::
  "media_storage \<Rightarrow> file_info \<Rightarrow> world \<Rightarrow> (exc + responder option) \<times> world" where
  "fetch_media ms file_info w =
     (let paths = fetch_media_paths ms file_info
      in case fetch_local (local_media_directory ms) paths w of
           (Inl e, w1) \<Rightarrow> (Inl e, w1)
         | (Inr (Some res), w1) \<Rightarrow> (Inr (Some res), w1)
         | (Inr None, w1) \<Rightarrow> fetch_providers (storage_providers ms) paths file_info w1)"

subsection \<open>\<open>ensure_media_is_in_local_cache\<close>\<close>

text \<open>
  The loop over the providers: the first result is streamed into \<open>local_path\<close> through a
  \<open>BackgroundFileConsumer\<close> on a file opened with \<open>"wb"\<close>, which is closed when the
  transfer is complete.
\<close>

fun ensure_from_providers ::
  "storage_provider list \<Rightarrow> string \<Rightarrow> string \<Rightarrow> file_info \<Rightarrow> world
   \<Rightarrow> (exc + string) \<times> world" where
  "ensure_from_providers [] path local_path file_info w = (Inl NotFoundError, w)"
| "ensure_from_providers (provider # rest) path local_path file_info w =
     (let w1 = emit (ProviderFetch provider path) w
      in case provider_fetch provider path file_info of
           Inl e \<Rightarrow> (Inl e, w1)
         | Inr (Some res) \<Rightarrow>
             (case open_wb local_path w1 of
                (Inl e, w2) \<Rightarrow> (Inl e, w2)
              | (Inr f, w2) \<Rightarrow>
                  (let f' = file_write (payload res) f;
                       w3 = close_w local_path f' w2
                   in (Inr local_path, w3)))
         | Inr None \<Rightarrow> ensure_from_providers rest path local_path file_info w1)"

definition ensure_media_is_in_local_cache ::
  "media_storage \<Rightarrow> file_info \<Rightarrow> world \<Rightarrow> (exc + string) \<times> world" where
  "ensure_media_is_in_local_cache ms file_info w =
     (let path = file_info_to_path (filepaths ms) file_info;
          local_path = os_path_join (local_media_directory ms) path;
          (found, w1) = os_path_exists local_path w
      in if found then (Inr local_path, w1)
         else
           (let legacy_local_path =
                  os_path_join (local_media_directory ms) (legacy_path (filepaths ms) file_info);
                (legacy_found, w2) =
                  (if is_remote_thumbnail file_info then os_path_exists legacy_local_path w1
                   else (False, w1))
            in if legacy_found then (Inr legacy_local_path, w2)
               else
                 (let dirname = os_path_dirname local_path
                  in case os_makedirs dirname w2 of
                       (Inl e, w3) \<Rightarrow> (Inl e, w3)
                     | (Inr u, w3) \<Rightarrow>
                         ensure_from_providers (storage_providers ms) path local_path
                           file_info w3)))"

subsection \<open>\<open>ReadableFileWrapper.write_chunks_to\<close>\<close>

definition CHUNK_SIZE :: nat where
  "CHUNK_SIZE = 2 ^ 14"

text \<open>
  The loop of \<open>write_chunks_to\<close>. The callback is the caller's: it has a state of its own,
  \<open>'s\<close>, and may raise, which ends the loop.
\<close>

function write_chunks_loop ::
  "(bytes \<Rightarrow> 's \<Rightarrow> exc option \<times> 's) \<Rightarrow> py_file \<Rightarrow> 's \<Rightarrow> world \<Rightarrow> (exc + unit) \<times> 's \<times> world" where
  "write_chunks_loop callback file s w =
     (let chunk = fst (file_read CHUNK_SIZE file);
          file' = snd (file_read CHUNK_SIZE file)
      in if chunk = [] then (Inr (), s, w)
         else (let w1 = emit (Callback chunk) w;
                   raised = fst (callback chunk s);
                   s' = snd (callback chunk s)
               in if raised \<noteq> None then (Inl (the raised), s', w1)
                  else write_chunks_loop callback file' s' (emit (Sleep 0) w1)))"
  by pat_completeness auto
termination
  by (relation "measure (\<lambda>(callback, file, s, w). length (data file) - pos file)")
     (auto simp: file_read_def Let_def CHUNK_SIZE_def)

declare write_chunks_loop.simps [simp del]

definition write_chunks_to ::
  "readable_file_wrapper \<Rightarrow> (bytes \<Rightarrow> 's \<Rightarrow> exc option \<times> 's) \<Rightarrow> 's \<Rightarrow> world
   \<Rightarrow> (exc + unit) \<times> 's \<times> world" where
  "write_chunks_to self callback s w =
     (case open_rb (wrapper_path self) w of
        (Inl e, w1) \<Rightarrow> (Inl e, s, w1)
      | (Inr file, w1) \<Rightarrow> write_chunks_loop callback file s w1)"

section \<open>Names used in the statements\<close>

text \<open>The absolute name of the local file: \<open>fname\<close> in \<open>store_into_file\<close>.\<close>

definition resolved_fname :: "media_storage \<Rightarrow> file_info \<Rightarrow> string" where
  "resolved_fname ms file_info =
     os_path_join (local_media_directory ms) (file_info_to_path (filepaths ms) file_info)"

text \<open>
  The chunks the spec describes for a file: consecutive pieces of \<open>n\<close> bytes, the last one
  possibly shorter, none empty.
\<close>

function chunks_of :: "nat \<Rightarrow> bytes \<Rightarrow> bytes list" where
  "chunks_of n xs = (if n = 0 \<or> xs = [] then [] else take n xs # chunks_of n (drop n xs))"
  by pat_completeness auto
termination
  by (relation "measure (\<lambda>(n, xs). length xs)") auto

declare chunks_of.simps [simp del]

text \<open>
  The state in which the safety check runs: the directories made, the file opened and closed
  again with the caller's bytes.
\<close>

definition closed_world :: "string \<Rightarrow> py_file \<Rightarrow> world \<Rightarrow> world" where
  "closed_world fname f w =
     w\<lparr>trace := trace w @ [Makedirs (os_path_dirname fname), OpenWrite fname, CloseWrite fname],
       dirs := dirs w \<union> set (parents (os_path_dirname fname)),
       files := (files w)(fname \<mapsto> data f)\<rparr>"

text \<open>The calls to the providers in a record of calls: who was called, with which path.\<close>

fun provider_stores :: "event list \<Rightarrow> (storage_provider \<times> string) list" where
  "provider_stores [] = []"
| "provider_stores (ProviderStore p path # evs) = (p, path) # provider_stores evs"
| "provider_stores (ev # evs) = provider_stores evs"

fun provider_fetches :: "event list \<Rightarrow> (storage_provider \<times> string) list" where
  "provider_fetches [] = []"
| "provider_fetches (ProviderFetch p path # evs) = (p, path) # provider_fetches evs"
| "provider_fetches (ev # evs) = provider_fetches evs"

section \<open>Example inputs\<close>

text \<open>A small instance of the path functions, used for the concrete examples below.\<close>

definition example_paths :: media_file_paths where
  "example_paths =
     \<lparr>url_cache_thumbnail_rel = (\<lambda>m w h t me. ''uct/'' @ m @ ''-'' @ t @ ''-'' @ me),
      url_cache_filepath_rel = (\<lambda>m. ''uc/'' @ m),
      remote_media_thumbnail_rel = (\<lambda>s m w h t me. ''rt/'' @ s @ ''/'' @ m @ ''-'' @ t @ ''-'' @ me),
      remote_media_filepath_rel = (\<lambda>s m. ''rc/'' @ s @ ''/'' @ m),
      local_media_thumbnail_rel = (\<lambda>m w h t me. ''lt/'' @ m @ ''-'' @ t @ ''-'' @ me),
      local_media_filepath_rel = (\<lambda>m. ''lc/'' @ m),
      remote_media_thumbnail_rel_legacy = (\<lambda>s m w h t. ''rt/'' @ s @ ''/'' @ m @ ''-'' @ t)\<rparr>"

definition accept_all :: "(string \<rightharpoonup> bytes) \<Rightarrow> readable_file_wrapper \<Rightarrow> file_info \<Rightarrow> exc + spam_verdict" where
  "accept_all fs wrapper file_info = Inr NOT_SPAM"

definition reject_all :: "(string \<rightharpoonup> bytes) \<Rightarrow> readable_file_wrapper \<Rightarrow> file_info \<Rightarrow> exc + spam_verdict" where
  "reject_all fs wrapper file_info = Inr (Rejected ''M_FORBIDDEN'' [])"

text \<open>Four providers: one that holds nothing, one whose store fails, and two that hold bytes.\<close>

definition quiet_provider :: storage_provider where
  "quiet_provider = \<lparr>provider_store_file = (\<lambda>p i. None), provider_fetch = (\<lambda>p i. Inr None)\<rparr>"

definition failing_provider :: storage_provider where
  "failing_provider =
     \<lparr>provider_store_file = (\<lambda>p i. Some (OtherException ''down'')),
      provider_fetch = (\<lambda>p i. Inr None)\<rparr>"

definition mirror_provider :: storage_provider where
  "mirror_provider =
     \<lparr>provider_store_file = (\<lambda>p i. None),
      provider_fetch = (\<lambda>p i. Inr (Some (ProviderResponder ''mirror'')))\<rparr>"

definition legacy_provider :: storage_provider where
  "legacy_provider =
     \<lparr>provider_store_file = (\<lambda>p i. None),
      provider_fetch =
        (\<lambda>p i. if p = ''rt/hs/abc-png'' then Inr (Some (ProviderResponder ''legacy'')) else Inr None)\<rparr>"

definition example_storage ::
  "storage_provider list \<Rightarrow>
   ((string \<rightharpoonup> bytes) \<Rightarrow> readable_file_wrapper \<Rightarrow> file_info \<Rightarrow> exc + spam_verdict) \<Rightarrow> media_storage" where
  "example_storage ps checker =
     \<lparr>local_media_directory = ''/m'', filepaths = example_paths, storage_providers = ps,
      check_media_file_for_spam = checker\<rparr>"

definition local_info :: file_info where
  "local_info = \<lparr>server_name = None, file_id = ''abc'', url_cache = False, thumbnail = None\<rparr>"

definition remote_thumbnail_info :: file_info where
  "remote_thumbnail_info =
     \<lparr>server_name = Some ''hs'', file_id = ''abc'', url_cache = False,
      thumbnail = Some \<lparr>width = 32, height = 24, method = ''crop'', type = ''png''\<rparr>\<rparr>"

text \<open>Caller's blocks: one raises an \<open>Exception\<close> after a write, one is interrupted, one writes.\<close>

definition raising_body :: "py_file \<times> string \<Rightarrow> unit \<Rightarrow> exc option \<times> py_file \<times> unit" where
  "raising_body = (\<lambda>(f, fname) c. (Some (OtherException ''boom''), file_write ''par'' f, c))"

definition interrupted_body :: "py_file \<times> string \<Rightarrow> unit \<Rightarrow> exc option \<times> py_file \<times> unit" where
  "interrupted_body = (\<lambda>(f, fname) c. (Some GeneratorExit, file_write ''par'' f, c))"

definition writing_body :: "py_file \<times> string \<Rightarrow> unit \<Rightarrow> exc option \<times> py_file \<times> unit" where
  "writing_body = (\<lambda>(f, fname) c. (None, file_write ''new'' f, c))"

definition empty_disk :: world where
  "empty_disk =
     \<lparr>files = Map.empty, dirs = {}, unwritable = {}, unreadable = {}, unremovable = {},
      trace = []\<rparr>"

definition protected_disk :: world where
  "protected_disk =
     \<lparr>files = Map.empty, dirs = {}, unwritable = {}, unreadable = {},
      unremovable = {''/m/lc/abc''}, trace = []\<rparr>"

definition existing_disk :: world where
  "existing_disk =
     \<lparr>files = [''/m/lc/abc'' \<mapsto> ''old''], dirs = {''/m'', ''/m/lc''}, unwritable = {},
      unreadable = {}, unremovable = {}, trace = []\<rparr>"

definition legacy_disk :: world where
  "legacy_disk =
     \<lparr>files = [''/m/rt/hs/abc-png'' \<mapsto> ''thumb''], dirs = {''/m'', ''/m/rt'', ''/m/rt/hs''},
      unwritable = {}, unreadable = {}, unremovable = {}, trace = []\<rparr>"

definition example_source :: py_file where
  "example_source = \<lparr>name = ''upload'', data = ''0123456789'', pos = 4\<rparr>"

text \<open>A callback that collects what it is given, and one that fails on its second call.\<close>

definition collecting_callback :: "bytes \<Rightarrow> bytes list \<Rightarrow> exc option \<times> bytes list" where
  "collecting_callback chunk seen = (None, seen @ [chunk])"

section \<open>The path resolver\<close>

text \<open>
  Claim C5. \<open>_file_info_to_path\<close> applies the first matching rule of a fixed order:
  \<open>url_cache\<close> first, then a present (non-empty) \<open>server_name\<close>, then local; within each
  namespace a thumbnail selects the thumbnail variant, keyed by width, height, content type
  and method in addition to the base key. In particular, with \<open>url_cache\<close> set the result
  does not depend on \<open>server_name\<close>: such a descriptor resolves under the URL-preview-cache
  namespace.
\<close>

theorem file_info_to_path_rules:
  "(url_cache fi \<and> thumbnail fi = Some t \<longrightarrow>
      file_info_to_path fp fi =
        url_cache_thumbnail_rel fp (file_id fi) (width t) (height t) (type t) (method t)) \<and>
   (url_cache fi \<and> thumbnail fi = None \<longrightarrow>
      file_info_to_path fp fi = url_cache_filepath_rel fp (file_id fi)) \<and>
   (\<not> url_cache fi \<and> server_name fi = Some s \<and> s \<noteq> [] \<and> thumbnail fi = Some t \<longrightarrow>
      file_info_to_path fp fi =
        remote_media_thumbnail_rel fp s (file_id fi) (width t) (height t) (type t) (method t)) \<and>
   (\<not> url_cache fi \<and> server_name fi = Some s \<and> s \<noteq> [] \<and> thumbnail fi = None \<longrightarrow>
      file_info_to_path fp fi = remote_media_filepath_rel fp s (file_id fi)) \<and>
   (\<not> url_cache fi \<and> \<not> truthy (server_name fi) \<and> thumbnail fi = Some t \<longrightarrow>
      file_info_to_path fp fi =
        local_media_thumbnail_rel fp (file_id fi) (width t) (height t) (type t) (method t)) \<and>
   (\<not> url_cache fi \<and> \<not> truthy (server_name fi) \<and> thumbnail fi = None \<longrightarrow>
      file_info_to_path fp fi = local_media_filepath_rel fp (file_id fi)) \<and>
   (url_cache fi \<longrightarrow> file_info_to_path fp (fi\<lparr>server_name := sn\<rparr>) = file_info_to_path fp fi)"
  by (simp add: file_info_to_path_def truthy_def split: option.splits)

theorem file_info_to_path_rules_witness:
  "file_info_to_path example_paths
     \<lparr>server_name = Some ''hs'', file_id = ''abc'', url_cache = True, thumbnail = None\<rparr> = ''uc/abc'' \<and>
   file_info_to_path example_paths
     \<lparr>server_name = Some ''hs'', file_id = ''abc'', url_cache = False,
      thumbnail = Some \<lparr>width = 32, height = 24, method = ''crop'', type = ''png''\<rparr>\<rparr>
     = ''rt/hs/abc-png-crop''"
  using file_info_to_path_rules [of
      "\<lparr>server_name = Some ''hs'', file_id = ''abc'', url_cache = True, thumbnail = None\<rparr>"
      undefined example_paths "''hs''" None]
    file_info_to_path_rules [of
      "\<lparr>server_name = Some ''hs'', file_id = ''abc'', url_cache = False,
        thumbnail = Some \<lparr>width = 32, height = 24, method = ''crop'', type = ''png''\<rparr>\<rparr>"
      "\<lparr>width = 32, height = 24, method = ''crop'', type = ''png''\<rparr>" example_paths "''hs''" None]
  by (simp add: example_paths_def)

section \<open>The local disk\<close>

lemma dir_prefixes_last: "seen @ d \<in> set (dir_prefixes seen d)"
proof (induction d arbitrary: seen)
  case Nil
  then show ?case by simp
next
  case (Cons a d)
  from Cons [of "seen @ [a]"] show ?case by (cases "a = CHR 0x2F") auto
qed

lemma parents_self: "rstrip_slashes d \<noteq> [] \<Longrightarrow> rstrip_slashes d \<in> set (parents d)"
  using dir_prefixes_last [of "[]" d] by (auto simp: parents_def)

lemma os_makedirs_trace:
  "trace (snd (os_makedirs d w)) = trace w @ [Makedirs d] \<and>
   files (snd (os_makedirs d w)) = files w \<and>
   unwritable (snd (os_makedirs d w)) = unwritable w \<and>
   unreadable (snd (os_makedirs d w)) = unreadable w \<and>
   unremovable (snd (os_makedirs d w)) = unremovable w"
  by (simp add: os_makedirs_def emit_def Let_def)

lemma os_makedirs_Inr:
  assumes "os_makedirs d w = (Inr u, w1)"
  shows "w1 = w\<lparr>trace := trace w @ [Makedirs d], dirs := dirs w \<union> set (parents d)\<rparr> \<and>
         d \<noteq> [] \<and> is_dir w1 d"
proof -
  have d: "d \<noteq> []" and w1: "w1 = (emit (Makedirs d) w)\<lparr>dirs := dirs w \<union> set (filter (\<lambda>p. p \<notin> dirs w) (parents d))\<rparr>"
    using assms by (auto simp: os_makedirs_def Let_def split: if_splits)
  have eq: "dirs w \<union> set (filter (\<lambda>p. p \<notin> dirs w) (parents d)) = dirs w \<union> set (parents d)"
    by auto
  have "is_dir w1 d"
    using d parents_self [of d] unfolding w1 eq by (auto simp: is_dir_def emit_def)
  with d w1 eq show ?thesis by (simp add: emit_def)
qed

lemma open_wb_trace:
  "trace (snd (open_wb p w)) = trace w @ [OpenWrite p] \<and>
   dirs (snd (open_wb p w)) = dirs w \<and>
   unwritable (snd (open_wb p w)) = unwritable w \<and>
   unreadable (snd (open_wb p w)) = unreadable w \<and>
   unremovable (snd (open_wb p w)) = unremovable w"
  by (simp add: open_wb_def emit_def Let_def)

lemma open_wb_Inr:
  assumes "open_wb p w = (Inr f, w1)"
  shows "f = \<lparr>name = p, data = [], pos = 0\<rparr> \<and>
         w1 = w\<lparr>trace := trace w @ [OpenWrite p], files := (files w)(p \<mapsto> [])\<rparr> \<and>
         p \<noteq> [] \<and> last p \<noteq> CHR ''/'' \<and> p \<notin> dirs w \<and> p \<notin> unwritable w \<and>
         (os_path_dirname p = [] \<or> is_dir w (os_path_dirname p))"
  using assms by (auto simp: open_wb_def Let_def emit_def split: if_splits)

lemma open_wb_Inl:
  "open_wb p w = (Inl e, w1) \<Longrightarrow> isinstance_Exception e \<and> w1 = emit (OpenWrite p) w"
  by (auto simp: open_wb_def Let_def split: if_splits)

lemma os_remove_Inl:
  "os_remove p w = (Inl e, w1) \<Longrightarrow> isinstance_Exception e \<and> w1 = emit (Remove p) w"
  by (auto simp: os_remove_def Let_def split: if_splits)

lemma is_file_not_dir: "is_file w p \<Longrightarrow> \<not> is_dir w p"
proof -
  assume f: "is_file w p"
  then have "p \<noteq> []" "last p \<noteq> CHR ''/''" "p \<notin> dirs w" by (auto simp: is_file_def)
  then have "rstrip_slashes p = p"
    by (cases p rule: rev_cases) (auto simp: rstrip_slashes_def)
  with \<open>p \<noteq> []\<close> \<open>p \<notin> dirs w\<close> show ?thesis by (simp add: is_dir_def)
qed

lemma os_remove_file:
  assumes "is_file w p"
  shows "os_remove p w =
     (if p \<in> unremovable w then (Inl PermissionError, emit (Remove p) w)
      else (Inr (), (emit (Remove p) w)\<lparr>files := (files w)(p := None)\<rparr>))"
  using assms is_file_not_dir [OF assms] by (simp add: os_remove_def Let_def)

lemma store_into_file_except_file:
  assumes "is_file w p"
  shows "store_into_file_except p e w =
     (e, if isinstance_Exception e
         then (if p \<in> unremovable w then emit (Remove p) w
               else (emit (Remove p) w)\<lparr>files := (files w)(p := None)\<rparr>)
         else w)"
  by (simp add: store_into_file_except_def os_remove_file [OF assms])

lemma store_into_file_enter_Inr:
  assumes "store_into_file_enter ms fi w = (Inr (f, fname), w1)"
  shows "fname = resolved_fname ms fi \<and> f = \<lparr>name = fname, data = [], pos = 0\<rparr> \<and>
    w1 = w\<lparr>trace := trace w @ [Makedirs (os_path_dirname fname), OpenWrite fname],
           dirs := dirs w \<union> set (parents (os_path_dirname fname)),
           files := (files w)(fname \<mapsto> [])\<rparr> \<and>
    fname \<noteq> [] \<and> last fname \<noteq> CHR ''/'' \<and> fname \<notin> dirs w1 \<and> fname \<notin> unwritable w \<and>
    is_dir w1 (os_path_dirname fname)"
proof -
  let ?n = "resolved_fname ms fi"
  let ?d = "os_path_dirname ?n"
  obtain r0 w0 where mk: "os_makedirs ?d w = (r0, w0)" by (cases "os_makedirs ?d w")
  obtain r2 w2 where op: "open_wb ?n w0 = (r2, w2)" by (cases "open_wb ?n w0")
  from assms mk op have r0: "r0 = Inr ()" and r2: "r2 = Inr f" and n: "fname = ?n" and w: "w1 = w2"
    by (auto simp: store_into_file_enter_def resolved_fname_def Let_def
        split: sum.splits prod.splits)
  note m = os_makedirs_Inr [OF mk [unfolded r0]]
  note p = open_wb_Inr [OF op [unfolded r2]]
  have dn: "?d \<noteq> []" using m by simp
  from m p n w dn show ?thesis
    by (auto simp: is_dir_def)
qed

section \<open>Writing: \<open>store_into_file\<close>\<close>

lemma store_to_providers_unchanged:
  "files (snd (store_to_providers ps path fi w)) = files w \<and>
   dirs (snd (store_to_providers ps path fi w)) = dirs w \<and>
   unremovable (snd (store_to_providers ps path fi w)) = unremovable w \<and>
   unwritable (snd (store_to_providers ps path fi w)) = unwritable w"
  by (induction ps arbitrary: w) (auto simp: emit_def Let_def split: option.splits)

lemma store_to_providers_all_ok:
  "(\<forall>p \<in> set ps. provider_store_file p path fi = None) \<Longrightarrow>
   store_to_providers ps path fi w =
     (Inr (), w\<lparr>trace := trace w @ map (\<lambda>p. ProviderStore p path) ps\<rparr>)"
proof (induction ps arbitrary: w)
  case Nil
  then show ?case by simp
next
  case (Cons p ps)
  then show ?case by (simp add: emit_def)
qed

lemma store_to_providers_Inr:
  "fst (store_to_providers ps path fi w) = Inr u \<Longrightarrow>
   (\<forall>p \<in> set ps. provider_store_file p path fi = None)"
  by (induction ps arbitrary: w) (auto simp: Let_def split: option.splits)

lemma store_to_providers_Inl:
  "fst (store_to_providers ps path fi w) = Inl e \<Longrightarrow>
   \<exists>p \<in> set ps. provider_store_file p path fi = Some e"
  by (induction ps arbitrary: w) (auto simp: Let_def split: option.splits)


lemma store_to_providers_prefix:
  "\<exists>k \<le> length ps.
     trace (snd (store_to_providers ps path fi w)) =
       trace w @ map (\<lambda>p. ProviderStore p path) (take k ps) \<and>
     (\<forall>j. Suc j < k \<longrightarrow> provider_store_file (ps ! j) path fi = None) \<and>
     (\<forall>u. fst (store_to_providers ps path fi w) = Inr u \<longrightarrow> k = length ps)"
proof (induction ps arbitrary: w)
  case Nil
  then show ?case by simp
next
  case (Cons p ps)
  show ?case
  proof (cases "provider_store_file p path fi")
    case (Some e)
    then have "trace (snd (store_to_providers (p # ps) path fi w)) =
       trace w @ map (\<lambda>p. ProviderStore p path) (take 1 (p # ps)) \<and>
     (\<forall>j. Suc j < 1 \<longrightarrow> provider_store_file ((p # ps) ! j) path fi = None) \<and>
     (\<forall>u. fst (store_to_providers (p # ps) path fi w) = Inr u \<longrightarrow> 1 = length (p # ps))"
      by (simp add: emit_def)
    moreover have "1 \<le> length (p # ps)" by simp
    ultimately show ?thesis by blast
  next
    case None
    let ?w1 = "emit (ProviderStore p path) w"
    from Cons.IH [of ?w1] obtain k where k: "k \<le> length ps"
      "trace (snd (store_to_providers ps path fi ?w1)) =
         trace ?w1 @ map (\<lambda>p. ProviderStore p path) (take k ps)"
      "\<forall>j. Suc j < k \<longrightarrow> provider_store_file (ps ! j) path fi = None"
      "\<forall>u. fst (store_to_providers ps path fi ?w1) = Inr u \<longrightarrow> k = length ps"
      by blast
    have a: "trace (snd (store_to_providers (p # ps) path fi w)) =
       trace w @ map (\<lambda>p. ProviderStore p path) (take (Suc k) (p # ps))"
      using None k(2) by (simp add: emit_def)
    have b: "\<forall>j. Suc j < Suc k \<longrightarrow> provider_store_file ((p # ps) ! j) path fi = None"
    proof (intro allI impI)
      fix j assume j: "Suc j < Suc k"
      show "provider_store_file ((p # ps) ! j) path fi = None"
      proof (cases j)
        case 0
        with None show ?thesis by simp
      next
        case (Suc j')
        with j k(3) show ?thesis by simp
      qed
    qed
    have c: "\<forall>u. fst (store_to_providers (p # ps) path fi w) = Inr u \<longrightarrow> Suc k = length (p # ps)"
      using None k(4) by simp
    have "Suc k \<le> length (p # ps)" using k(1) by simp
    with a b c show ?thesis by blast
  qed
qed

lemma store_to_providers_first_event:
  assumes "ps \<noteq> []"
  shows "\<exists>rest. trace (snd (store_to_providers ps path fi w)) =
           trace w @ ProviderStore (hd ps) path # rest"
proof -
  obtain p ps' where ps: "ps = p # ps'" using assms by (cases ps) auto
  show ?thesis
  proof (cases "provider_store_file p path fi")
    case (Some e)
    with ps show ?thesis by (simp add: emit_def)
  next
    case None
    from store_to_providers_prefix [of ps' path fi "emit (ProviderStore p path) w"]
    obtain k where "trace (snd (store_to_providers ps' path fi (emit (ProviderStore p path) w))) =
       trace (emit (ProviderStore p path) w) @ map (\<lambda>p. ProviderStore p path) (take k ps')"
      by blast
    with None ps show ?thesis by (simp add: emit_def)
  qed
qed

lemma close_after_enter:
  assumes "store_into_file_enter ms fi w = (Inr (f, fname), w1)"
  shows "close_w fname f' w1 = closed_world fname f' w"
  using store_into_file_enter_Inr [OF assms]
  by (simp add: close_w_def emit_def closed_world_def)

lemma closed_world_fields:
  "files (closed_world fname f' w) = (files w)(fname \<mapsto> data f')"
  "unremovable (closed_world fname f' w) = unremovable w"
  "dirs (closed_world fname f' w) = dirs w \<union> set (parents (os_path_dirname fname))"
  "trace (closed_world fname f' w) =
     trace w @ [Makedirs (os_path_dirname fname), OpenWrite fname, CloseWrite fname]"
  by (simp_all add: closed_world_def)

lemma store_into_file_try_eq:
  assumes "store_into_file_enter ms fi w = (Inr (f, fname), w1)"
  shows "store_into_file_try ms fi path fname thrown f' w1 =
     (case thrown of
        Some e \<Rightarrow> (Inl e, closed_world fname f' w)
      | None \<Rightarrow>
          (case check_media_file_for_spam ms ((files w)(fname \<mapsto> data f'))
                  \<lparr>wrapper_path = fname\<rparr> fi of
             Inl e \<Rightarrow> (Inl e, emit (SpamCheck fname) (closed_world fname f' w))
           | Inr v \<Rightarrow>
               if v \<noteq> NOT_SPAM
               then (Inl (SpamMediaException (verdict_code v)),
                     emit (SpamCheck fname) (closed_world fname f' w))
               else store_to_providers (storage_providers ms) path fi
                      (emit (SpamCheck fname) (closed_world fname f' w))))"
  unfolding store_into_file_try_def Let_def close_after_enter [OF assms]
  by (simp add: closed_world_def emit_def split: option.splits sum.splits)

lemma store_into_file_try_world:
  assumes enter: "store_into_file_enter ms fi w = (Inr (f, fname), w1)"
    and tr: "store_into_file_try ms fi path fname thrown f' w1 = (r, w2)"
  shows "files w2 = (files w)(fname \<mapsto> data f') \<and> unremovable w2 = unremovable w \<and>
         dirs w2 = dirs w1 \<and> is_file w2 fname \<and> unwritable w2 = unwritable w"
proof -
  let ?w0 = "emit (SpamCheck fname) (closed_world fname f' w)"
  note e = store_into_file_enter_Inr [OF enter]
  have d1: "dirs w1 = dirs w \<union> set (parents (os_path_dirname fname))"
    using e by simp
  have base: "files (closed_world fname f' w) = (files w)(fname \<mapsto> data f')"
    "unremovable (closed_world fname f' w) = unremovable w"
    "dirs (closed_world fname f' w) = dirs w1"
    "files ?w0 = (files w)(fname \<mapsto> data f')" "unremovable ?w0 = unremovable w"
    "dirs ?w0 = dirs w1"
    "unwritable (closed_world fname f' w) = unwritable w" "unwritable ?w0 = unwritable w"
    by (simp_all add: closed_world_def emit_def d1)
  have sp: "files (snd (store_to_providers (storage_providers ms) path fi ?w0)) = files ?w0"
    "unremovable (snd (store_to_providers (storage_providers ms) path fi ?w0)) = unremovable ?w0"
    "dirs (snd (store_to_providers (storage_providers ms) path fi ?w0)) = dirs ?w0"
    "unwritable (snd (store_to_providers (storage_providers ms) path fi ?w0)) = unwritable ?w0"
    using store_to_providers_unchanged [of "storage_providers ms" path fi ?w0] by simp_all
  have "w2 = closed_world fname f' w \<or> w2 = ?w0 \<or>
        w2 = snd (store_to_providers (storage_providers ms) path fi ?w0)"
    using tr unfolding store_into_file_try_eq [OF enter]
    by (auto split: option.splits sum.splits if_splits)
  then have a: "files w2 = (files w)(fname \<mapsto> data f') \<and> unremovable w2 = unremovable w \<and>
         dirs w2 = dirs w1 \<and> unwritable w2 = unwritable w"
    using base sp by (elim disjE) simp_all
  have nd: "fname \<noteq> []" "last fname \<noteq> CHR ''/''" "fname \<notin> dirs w1"
    using e by blast+
  have "is_file w2 fname"
    using a nd by (simp add: is_file_def)
  with a show ?thesis by simp
qed

lemma store_into_file_eq:
  assumes enter: "store_into_file_enter ms fi w = (Inr (f, fname), w1)"
    and body: "body (f, fname) c = (thrown, f', c')"
    and tr: "store_into_file_try ms fi (file_info_to_path (filepaths ms) fi) fname thrown f' w1
               = (r, w2)"
  shows "store_into_file ms fi body c w =
     (case r of
        Inl e \<Rightarrow>
          (Inl e, c',
           if isinstance_Exception e
           then (if fname \<in> unremovable w then emit (Remove fname) w2
                 else (emit (Remove fname) w2)\<lparr>files := (files w2)(fname := None)\<rparr>)
           else w2)
      | Inr u \<Rightarrow> (Inr fname, c', w2))"
proof -
  note tw = store_into_file_try_world [OF enter tr]
  have isf: "is_file w2 fname" and unr: "unremovable w2 = unremovable w"
    using tw by simp_all
  show ?thesis
    using enter body tr
    by (simp add: store_into_file_def Let_def store_into_file_except_file [OF isf] unr
        split: sum.splits)
qed



lemmas model_defs =
  store_into_file_def store_into_file_enter_def store_into_file_try_def store_into_file_except_def
  file_info_to_path_def truthy_def os_path_join_def os_path_dirname_def os_makedirs_def
  open_wb_def close_w_def os_remove_def emit_def file_write_def Let_def
  is_dir_def is_file_def rstrip_slashes_def parents_def

lemmas example_defs =
  example_storage_def example_paths_def local_info_def raising_body_def writing_body_def
  interrupted_body_def empty_disk_def protected_disk_def existing_disk_def accept_all_def
  reject_all_def quiet_provider_def failing_provider_def mirror_provider_def


lemma enter_example:
  "store_into_file_enter (example_storage ps chk) local_info empty_disk =
     (Inr (\<lparr>name = ''/m/lc/abc'', data = [], pos = 0\<rparr>, ''/m/lc/abc''),
      snd (store_into_file_enter (example_storage ps chk) local_info empty_disk))"
  by (simp add: model_defs example_defs)

lemma enter_protected:
  "store_into_file_enter (example_storage ps chk) local_info protected_disk =
     (Inr (\<lparr>name = ''/m/lc/abc'', data = [], pos = 0\<rparr>, ''/m/lc/abc''),
      snd (store_into_file_enter (example_storage ps chk) local_info protected_disk))"
  by (simp add: model_defs example_defs)






lemma provider_stores_append:
  "provider_stores (xs @ ys) = provider_stores xs @ provider_stores ys"
  by (induction xs rule: provider_stores.induct) simp_all

lemma provider_stores_map:
  "provider_stores (map (\<lambda>p. ProviderStore p path) ps) = map (\<lambda>p. (p, path)) ps"
  by (induction ps) simp_all

lemma store_into_file_except_trace:
  "trace (snd (store_into_file_except fname e w)) = trace w \<or>
   trace (snd (store_into_file_except fname e w)) = trace w @ [Remove fname]"
  by (auto simp: store_into_file_except_def os_remove_def Let_def emit_def)

lemma store_into_file_enter_stores:
  "provider_stores (trace (snd (store_into_file_enter ms fi w))) = provider_stores (trace w)"
proof -
  let ?n = "os_path_join (local_media_directory ms) (file_info_to_path (filepaths ms) fi)"
  let ?d = "os_path_dirname ?n"
  obtain r0 w0 where mk: "os_makedirs ?d w = (r0, w0)" by (cases "os_makedirs ?d w")
  obtain r2 w2 where op: "open_wb ?n w0 = (r2, w2)" by (cases "open_wb ?n w0")
  have t0: "trace w0 = trace w @ [Makedirs ?d]"
    using os_makedirs_trace [of ?d w] mk by simp
  have t2: "trace w2 = trace w @ [Makedirs ?d, OpenWrite ?n]"
    using open_wb_trace [of ?n w0] op t0 by simp
  show ?thesis
  proof (cases r0)
    case (Inl e)
    with mk have "snd (store_into_file_enter ms fi w) = w0"
      by (simp add: store_into_file_enter_def Let_def)
    with t0 show ?thesis by (simp add: provider_stores_append)
  next
    case (Inr u)
    show ?thesis
    proof (cases r2)
      case (Inl e)
      with mk op \<open>r0 = Inr u\<close>
      have "snd (store_into_file_enter ms fi w) = snd (store_into_file_except ?n e w2)"
        by (simp add: store_into_file_enter_def Let_def split: prod.splits)
      with t2 store_into_file_except_trace [of ?n e w2] show ?thesis
        by (auto simp: provider_stores_append)
    next
      case (Inr f)
      with mk op \<open>r0 = Inr u\<close> have "snd (store_into_file_enter ms fi w) = w2"
        by (simp add: store_into_file_enter_def Let_def)
      with t2 show ?thesis by (simp add: provider_stores_append)
    qed
  qed
qed

lemma store_into_file_success:
  assumes run: "store_into_file ms fi body c w = (Inr fname, c', w')"
  shows "fname = resolved_fname ms fi \<and>
    fst (store_into_file_enter ms fi w) = Inr (\<lparr>name = fname, data = [], pos = 0\<rparr>, fname) \<and>
    (\<forall>p \<in> set (storage_providers ms).
       provider_store_file p (file_info_to_path (filepaths ms) fi) fi = None) \<and>
    (\<exists>f'. w' = (emit (SpamCheck fname) (closed_world fname f' w))
       \<lparr>trace := trace (emit (SpamCheck fname) (closed_world fname f' w)) @
          map (\<lambda>p. ProviderStore p (file_info_to_path (filepaths ms) fi))
            (storage_providers ms)\<rparr> \<and>
       fst (snd (body (\<lparr>name = fname, data = [], pos = 0\<rparr>, fname) c)) = f' \<and>
       snd (snd (body (\<lparr>name = fname, data = [], pos = 0\<rparr>, fname) c)) = c' \<and>
       fst (body (\<lparr>name = fname, data = [], pos = 0\<rparr>, fname) c) = None \<and>
       check_media_file_for_spam ms ((files w)(fname \<mapsto> data f'))
         \<lparr>wrapper_path = fname\<rparr> fi = Inr NOT_SPAM)"
proof -
  let ?path = "file_info_to_path (filepaths ms) fi"
  obtain re w1 where en: "store_into_file_enter ms fi w = (re, w1)"
    by (cases "store_into_file_enter ms fi w")
  from run en obtain f n where re: "re = Inr (f, n)"
    by (cases re) (auto simp: store_into_file_def Let_def)
  note enter = en [unfolded re]
  note e = store_into_file_enter_Inr [OF enter]
  have n: "n = resolved_fname ms fi" and f: "f = \<lparr>name = n, data = [], pos = 0\<rparr>"
    using e by blast+
  obtain thrown f' c1 where body: "body (f, n) c = (thrown, f', c1)"
    by (cases "body (f, n) c") auto
  obtain r2 w2 where tr: "store_into_file_try ms fi ?path n thrown f' w1 = (r2, w2)"
    by (cases "store_into_file_try ms fi ?path n thrown f' w1")
  have whole: "(Inr fname, c', w') =
      (case r2 of
         Inl e \<Rightarrow>
           (Inl e, c1,
            if isinstance_Exception e
            then (if n \<in> unremovable w then emit (Remove n) w2
                  else (emit (Remove n) w2)\<lparr>files := (files w2)(n := None)\<rparr>)
            else w2)
       | Inr u \<Rightarrow> (Inr n, c1, w2))"
    using store_into_file_eq [where body = body and c = c, OF enter body tr] run by simp
  then have r2: "r2 = Inr ()" and fname: "fname = n" and w': "w' = w2" and c': "c' = c1"
    by (auto split: sum.splits)
  let ?w0 = "emit (SpamCheck n) (closed_world n f' w)"
  have try_eq: "(Inr (), w2) =
     (case thrown of
        Some e \<Rightarrow> (Inl e, closed_world n f' w)
      | None \<Rightarrow>
          (case check_media_file_for_spam ms ((files w)(n \<mapsto> data f'))
                  \<lparr>wrapper_path = n\<rparr> fi of
             Inl e \<Rightarrow> (Inl e, ?w0)
           | Inr v \<Rightarrow>
               if v \<noteq> NOT_SPAM
               then (Inl (SpamMediaException (verdict_code v)), ?w0)
               else store_to_providers (storage_providers ms) ?path fi ?w0))"
    using tr r2 unfolding store_into_file_try_eq [OF enter] by simp
  then have thrown: "thrown = None"
    and verdict: "check_media_file_for_spam ms ((files w)(n \<mapsto> data f'))
                  \<lparr>wrapper_path = n\<rparr> fi = Inr NOT_SPAM"
    and sp: "store_to_providers (storage_providers ms) ?path fi ?w0 = (Inr (), w2)"
    by (auto split: option.splits sum.splits if_splits)
  have allok: "\<forall>p \<in> set (storage_providers ms). provider_store_file p ?path fi = None"
    using store_to_providers_Inr [of "storage_providers ms" ?path fi ?w0 "()"] sp by simp
  have "w2 = ?w0\<lparr>trace := trace ?w0 @
          map (\<lambda>p. ProviderStore p ?path) (storage_providers ms)\<rparr>"
    using store_to_providers_all_ok [OF allok, of ?w0] sp by simp
  with fname w' c' allok body thrown verdict n f enter show ?thesis by simp
qed

text \<open>
  Claim C9. A successful store has made exactly these calls, in this order: the parent
  directories, the open and the close of the local file, the safety check, and then one
  store per provider, on the providers of \<open>storage_providers\<close> themselves and in their
  order, each of which returned without raising. More generally, in every run, successful or
  not, the providers whose store was called are an initial segment of \<open>storage_providers\<close>,
  in order, and every provider before the last one called returned without raising: a
  provider's store begins only when the one before it has completed.
\<close>

theorem store_into_file_replication_order:
  assumes run: "store_into_file ms fi body c w = (r, c', w')"
    and ps: "ps = storage_providers ms"
    and path: "path = file_info_to_path (filepaths ms) fi"
  shows "(\<forall>fname. r = Inr fname \<longrightarrow>
       trace w' = trace w @
         [Makedirs (os_path_dirname fname), OpenWrite fname, CloseWrite fname, SpamCheck fname] @
         map (\<lambda>p. ProviderStore p path) ps \<and>
       (\<forall>p \<in> set ps. provider_store_file p path fi = None)) \<and>
    (\<exists>k \<le> length ps.
       provider_stores (trace w') = provider_stores (trace w) @ map (\<lambda>p. (p, path)) (take k ps) \<and>
       (\<forall>j. Suc j < k \<longrightarrow> provider_store_file (ps ! j) path fi = None))"
proof -
  have one: "\<forall>fname. r = Inr fname \<longrightarrow>
       trace w' = trace w @
         [Makedirs (os_path_dirname fname), OpenWrite fname, CloseWrite fname, SpamCheck fname] @
         map (\<lambda>p. ProviderStore p path) ps \<and>
       (\<forall>p \<in> set ps. provider_store_file p path fi = None)"
  proof (intro allI impI)
    fix fname assume r: "r = Inr fname"
    note s = store_into_file_success [OF run [unfolded r]]
    from s obtain f' where "w' = (emit (SpamCheck fname) (closed_world fname f' w))
       \<lparr>trace := trace (emit (SpamCheck fname) (closed_world fname f' w)) @
          map (\<lambda>p. ProviderStore p path) ps\<rparr>"
      unfolding ps path by blast
    then have "trace w' = trace w @
         [Makedirs (os_path_dirname fname), OpenWrite fname, CloseWrite fname, SpamCheck fname] @
         map (\<lambda>p. ProviderStore p path) ps"
      by (simp add: emit_def closed_world_def)
    moreover have "\<forall>p \<in> set ps. provider_store_file p path fi = None"
      using s unfolding ps path by blast
    ultimately show "trace w' = trace w @
         [Makedirs (os_path_dirname fname), OpenWrite fname, CloseWrite fname, SpamCheck fname] @
         map (\<lambda>p. ProviderStore p path) ps \<and>
       (\<forall>p \<in> set ps. provider_store_file p path fi = None)"
      by (rule conjI)
  qed
  have two: "\<exists>k \<le> length ps.
       provider_stores (trace w') = provider_stores (trace w) @ map (\<lambda>p. (p, path)) (take k ps) \<and>
       (\<forall>j. Suc j < k \<longrightarrow> provider_store_file (ps ! j) path fi = None)"
  proof -
    obtain re w1 where en: "store_into_file_enter ms fi w = (re, w1)"
      by (cases "store_into_file_enter ms fi w")
    show ?thesis
    proof (cases re)
      case (Inl e)
      with run en have "w' = w1"
        by (simp add: store_into_file_def Let_def)
      with store_into_file_enter_stores [of ms fi w] en
      have "provider_stores (trace w') =
          provider_stores (trace w) @ map (\<lambda>p. (p, path)) (take 0 ps)"
        by simp
      then show ?thesis by auto
    next
      case (Inr x)
      obtain f n where x: "x = (f, n)" by (cases x)
      note enter = en [unfolded Inr x]
      obtain thrown f' c1 where body: "body (f, n) c = (thrown, f', c1)"
        by (cases "body (f, n) c") auto
      obtain r2 w2 where tr: "store_into_file_try ms fi path n thrown f' w1 = (r2, w2)"
        by (cases "store_into_file_try ms fi path n thrown f' w1")
      let ?w0 = "emit (SpamCheck n) (closed_world n f' w)"
      obtain k where k: "k \<le> length ps"
        "trace (snd (store_to_providers ps path fi ?w0)) =
           trace ?w0 @ map (\<lambda>p. ProviderStore p path) (take k ps)"
        "\<forall>j. Suc j < k \<longrightarrow> provider_store_file (ps ! j) path fi = None"
        using store_to_providers_prefix [of ps path fi ?w0] by blast
      have cw: "provider_stores (trace (closed_world n f' w)) = provider_stores (trace w)"
        "provider_stores (trace ?w0) = provider_stores (trace w)"
        by (simp_all add: closed_world_def emit_def provider_stores_append)
      have w2c: "w2 = closed_world n f' w \<or> w2 = ?w0 \<or> w2 = snd (store_to_providers ps path fi ?w0)"
        using tr unfolding store_into_file_try_eq [OF enter] ps
        by (auto split: option.splits sum.splits if_splits)
      have ps2: "provider_stores (trace w2) = provider_stores (trace w) \<or>
            provider_stores (trace w2) = provider_stores (trace w) @ map (\<lambda>p. (p, path)) (take k ps)"
        using w2c cw k(2) by (auto simp: provider_stores_append provider_stores_map)
      have whole: "(r, c', w') =
          (case r2 of
             Inl e \<Rightarrow>
               (Inl e, c1,
                if isinstance_Exception e
                then (if n \<in> unremovable w then emit (Remove n) w2
                      else (emit (Remove n) w2)\<lparr>files := (files w2)(n := None)\<rparr>)
                else w2)
           | Inr u \<Rightarrow> (Inr n, c1, w2))"
        using store_into_file_eq [where body = body and c = c, OF enter body tr [unfolded path]] run
        by simp
      have "trace w' = trace w2 \<or> trace w' = trace w2 @ [Remove n]"
        using whole by (cases r2) (auto simp: emit_def split: if_splits)
      then have "provider_stores (trace w') = provider_stores (trace w2)"
        by (auto simp: provider_stores_append)
      with ps2 have "provider_stores (trace w') =
            provider_stores (trace w) @ map (\<lambda>p. (p, path)) (take 0 ps) \<or>
          provider_stores (trace w') =
            provider_stores (trace w) @ map (\<lambda>p. (p, path)) (take k ps)"
        by simp
      then show ?thesis
      proof
        assume "provider_stores (trace w') =
            provider_stores (trace w) @ map (\<lambda>p. (p, path)) (take 0 ps)"
        then show ?thesis by (intro exI [of _ 0]) simp
      next
        assume "provider_stores (trace w') =
            provider_stores (trace w) @ map (\<lambda>p. (p, path)) (take k ps)"
        with k(1,3) show ?thesis by (intro exI [of _ k]) simp
      qed
    qed
  qed
  show ?thesis by (rule conjI [OF one two])
qed

theorem store_into_file_replication_order_witness:
  "trace (snd (snd (store_into_file (example_storage [quiet_provider, mirror_provider] accept_all)
      local_info writing_body () empty_disk))) =
     [Makedirs ''/m/lc'', OpenWrite ''/m/lc/abc'', CloseWrite ''/m/lc/abc'',
      SpamCheck ''/m/lc/abc'', ProviderStore quiet_provider ''lc/abc'',
      ProviderStore mirror_provider ''lc/abc''] \<and>
   quiet_provider \<noteq> mirror_provider"
proof -
  let ?R = "store_into_file (example_storage [quiet_provider, mirror_provider] accept_all)
      local_info writing_body () empty_disk"
  have "fst ?R = Inr ''/m/lc/abc''"
    by (simp add: model_defs example_defs)
  then have run: "?R = (Inr ''/m/lc/abc'', fst (snd ?R), snd (snd ?R))"
    by (metis prod.collapse)
  have ne: "quiet_provider \<noteq> mirror_provider"
  proof
    assume "quiet_provider = mirror_provider"
    then have "provider_fetch quiet_provider [] local_info = provider_fetch mirror_provider [] local_info"
      by simp
    then show False by (simp add: quiet_provider_def mirror_provider_def)
  qed
  from store_into_file_replication_order [OF run refl refl]
  have "trace (snd (snd ?R)) = trace empty_disk @
         [Makedirs (os_path_dirname ''/m/lc/abc''), OpenWrite ''/m/lc/abc'',
          CloseWrite ''/m/lc/abc'', SpamCheck ''/m/lc/abc''] @
         map (\<lambda>p. ProviderStore p
            (file_info_to_path (filepaths (example_storage [quiet_provider, mirror_provider] accept_all))
               local_info))
           (storage_providers (example_storage [quiet_provider, mirror_provider] accept_all))"
    by blast
  then have "trace (snd (snd ?R)) =
     [Makedirs ''/m/lc'', OpenWrite ''/m/lc/abc'', CloseWrite ''/m/lc/abc'',
      SpamCheck ''/m/lc/abc'', ProviderStore quiet_provider ''lc/abc'',
      ProviderStore mirror_provider ''lc/abc'']"
    by (simp add: example_storage_def example_paths_def local_info_def empty_disk_def
        file_info_to_path_def truthy_def os_path_dirname_def)
  then show ?thesis using ne by (intro conjI)
qed

text \<open>
  Claim C2, as amended. When the caller's block ends normally and the safety checker returns
  a verdict: if the verdict is anything other than \<open>NOT_SPAM\<close>, \<open>store_into_file\<close> raises
  \<open>SpamMediaException\<close> with the code of the verdict, which is an instance of
  \<open>NotFoundError\<close>; no provider is called (the calls made are exactly the directory
  creation, the open, the close, the safety check and the removal of the local file), and
  the local file is gone afterwards exactly when that removal is not refused. If the verdict
  is \<open>NOT_SPAM\<close>, no such rejection is raised: any exception raised is one that a provider's
  store raised, the first provider is called right after the safety check, and when no
  provider fails the store succeeds.
\<close>

theorem store_into_file_spam_gate:
  assumes enter: "store_into_file_enter ms fi w = (Inr (f, fname), w1)"
    and body: "body (f, fname) c = (None, f', c')"
    and verdict: "check_media_file_for_spam ms ((files w)(fname \<mapsto> data f'))
                    \<lparr>wrapper_path = fname\<rparr> fi = Inr v"
    and path: "path = file_info_to_path (filepaths ms) fi"
    and run: "store_into_file ms fi body c w = (r, c'', w')"
  shows "(v \<noteq> NOT_SPAM \<longrightarrow>
       r = Inl (SpamMediaException (verdict_code v)) \<and>
       isinstance_NotFoundError (SpamMediaException (verdict_code v)) \<and>
       trace w' = trace w @ [Makedirs (os_path_dirname fname), OpenWrite fname,
         CloseWrite fname, SpamCheck fname, Remove fname] \<and>
       (files w' fname = None \<longleftrightarrow> fname \<notin> unremovable w)) \<and>
    (v = NOT_SPAM \<longrightarrow>
       (\<forall>e. r = Inl e \<longrightarrow>
          (\<exists>p \<in> set (storage_providers ms). provider_store_file p path fi = Some e)) \<and>
       ((\<forall>p \<in> set (storage_providers ms). provider_store_file p path fi = None) \<longrightarrow>
          r = Inr fname) \<and>
       (storage_providers ms \<noteq> [] \<longrightarrow>
          (\<exists>rest. trace w' = trace w @ [Makedirs (os_path_dirname fname), OpenWrite fname,
             CloseWrite fname, SpamCheck fname,
             ProviderStore (hd (storage_providers ms)) path] @ rest)))"
proof -
  let ?w0 = "emit (SpamCheck fname) (closed_world fname f' w)"
  obtain r2 w2 where tr:
    "store_into_file_try ms fi path fname None f' w1 = (r2, w2)"
    by (cases "store_into_file_try ms fi path fname None f' w1")
  have whole: "(r, c'', w') =
      (case r2 of
         Inl e \<Rightarrow>
           (Inl e, c',
            if isinstance_Exception e
            then (if fname \<in> unremovable w then emit (Remove fname) w2
                  else (emit (Remove fname) w2)\<lparr>files := (files w2)(fname := None)\<rparr>)
            else w2)
       | Inr u \<Rightarrow> (Inr fname, c', w2))"
    using store_into_file_eq [where body = body and c = c, OF enter body tr [unfolded path]] run
    by simp
  have r_eq: "r = (case r2 of Inl e \<Rightarrow> Inl e | Inr u \<Rightarrow> Inr fname)"
    using whole by (cases r2) simp_all
  have w2: "files w2 = (files w)(fname \<mapsto> data f')"
    using store_into_file_try_world [OF enter tr] by simp
  have try_eq: "(r2, w2) =
     (if v \<noteq> NOT_SPAM then (Inl (SpamMediaException (verdict_code v)), ?w0)
      else store_to_providers (storage_providers ms) path fi ?w0)"
    using tr unfolding store_into_file_try_eq [OF enter] verdict by simp
  have t0: "trace ?w0 = trace w @ [Makedirs (os_path_dirname fname), OpenWrite fname,
         CloseWrite fname, SpamCheck fname]"
    by (simp add: emit_def closed_world_def)
  have rejected: "r = Inl (SpamMediaException (verdict_code v)) \<and>
       isinstance_NotFoundError (SpamMediaException (verdict_code v)) \<and>
       trace w' = trace w @ [Makedirs (os_path_dirname fname), OpenWrite fname,
         CloseWrite fname, SpamCheck fname, Remove fname] \<and>
       (files w' fname = None \<longleftrightarrow> fname \<notin> unremovable w)" if v: "v \<noteq> NOT_SPAM"
  proof -
    have r2: "r2 = Inl (SpamMediaException (verdict_code v))" and w2e: "w2 = ?w0"
      using try_eq v by simp_all
    have w': "w' = (if fname \<in> unremovable w then emit (Remove fname) w2
                  else (emit (Remove fname) w2)\<lparr>files := (files w2)(fname := None)\<rparr>)"
      and r: "r = Inl (SpamMediaException (verdict_code v))"
      using whole r2 by simp_all
    have tw: "trace w' = trace w2 @ [Remove fname]"
      unfolding w' by (simp add: emit_def)
    have fw: "files w' fname = None \<longleftrightarrow> fname \<notin> unremovable w"
      unfolding w' using w2 by (simp add: emit_def)
    have tw2: "trace w2 = trace w @ [Makedirs (os_path_dirname fname), OpenWrite fname,
         CloseWrite fname, SpamCheck fname]"
      using t0 w2e by simp
    show ?thesis
      using r tw fw tw2 by simp
  qed
  have accepted: "(\<forall>e. r = Inl e \<longrightarrow>
          (\<exists>p \<in> set (storage_providers ms). provider_store_file p path fi = Some e)) \<and>
       ((\<forall>p \<in> set (storage_providers ms). provider_store_file p path fi = None) \<longrightarrow>
          r = Inr fname) \<and>
       (storage_providers ms \<noteq> [] \<longrightarrow>
          (\<exists>rest. trace w' = trace w @ [Makedirs (os_path_dirname fname), OpenWrite fname,
             CloseWrite fname, SpamCheck fname,
             ProviderStore (hd (storage_providers ms)) path] @ rest))" if v: "v = NOT_SPAM"
  proof -
    have sp: "store_to_providers (storage_providers ms) path fi ?w0 = (r2, w2)"
      using try_eq v by simp
    have a: "\<forall>e. r = Inl e \<longrightarrow>
          (\<exists>p \<in> set (storage_providers ms). provider_store_file p path fi = Some e)"
    proof (intro allI impI)
      fix e assume "r = Inl e"
      with r_eq have "r2 = Inl e" by (cases r2) auto
      with sp show "\<exists>p \<in> set (storage_providers ms). provider_store_file p path fi = Some e"
        using store_to_providers_Inl [of "storage_providers ms" path fi ?w0 e] by simp
    qed
    have b: "(\<forall>p \<in> set (storage_providers ms). provider_store_file p path fi = None) \<longrightarrow>
          r = Inr fname"
    proof
      assume "\<forall>p \<in> set (storage_providers ms). provider_store_file p path fi = None"
      from store_to_providers_all_ok [OF this, of ?w0] sp have "r2 = Inr ()" by simp
      with r_eq show "r = Inr fname" by simp
    qed
    have c: "storage_providers ms \<noteq> [] \<longrightarrow>
          (\<exists>rest. trace w' = trace w @ [Makedirs (os_path_dirname fname), OpenWrite fname,
             CloseWrite fname, SpamCheck fname,
             ProviderStore (hd (storage_providers ms)) path] @ rest)"
    proof
      assume "storage_providers ms \<noteq> []"
      from store_to_providers_first_event [OF this, of path fi ?w0] sp
      obtain rest where w2t:
        "trace w2 = trace ?w0 @ ProviderStore (hd (storage_providers ms)) path # rest" by auto
      have "trace w' = trace w2 \<or> trace w' = trace w2 @ [Remove fname]"
        using whole by (cases r2) (auto simp: emit_def split: if_splits)
      with w2t t0 show "\<exists>rest. trace w' = trace w @ [Makedirs (os_path_dirname fname),
             OpenWrite fname, CloseWrite fname, SpamCheck fname,
             ProviderStore (hd (storage_providers ms)) path] @ rest"
        by auto
    qed
    from a b c show ?thesis by (intro conjI)
  qed
  have rej: "v \<noteq> NOT_SPAM \<longrightarrow>
       r = Inl (SpamMediaException (verdict_code v)) \<and>
       isinstance_NotFoundError (SpamMediaException (verdict_code v)) \<and>
       trace w' = trace w @ [Makedirs (os_path_dirname fname), OpenWrite fname,
         CloseWrite fname, SpamCheck fname, Remove fname] \<and>
       (files w' fname = None \<longleftrightarrow> fname \<notin> unremovable w)"
    using rejected by (rule impI)
  have acc: "v = NOT_SPAM \<longrightarrow>
       (\<forall>e. r = Inl e \<longrightarrow>
          (\<exists>p \<in> set (storage_providers ms). provider_store_file p path fi = Some e)) \<and>
       ((\<forall>p \<in> set (storage_providers ms). provider_store_file p path fi = None) \<longrightarrow>
          r = Inr fname) \<and>
       (storage_providers ms \<noteq> [] \<longrightarrow>
          (\<exists>rest. trace w' = trace w @ [Makedirs (os_path_dirname fname), OpenWrite fname,
             CloseWrite fname, SpamCheck fname,
             ProviderStore (hd (storage_providers ms)) path] @ rest))"
    using accepted by (rule impI)
  show ?thesis
    by (rule conjI [OF rej acc])
qed

text \<open>
  Claim C2 as stated fails in its last part: the verdict is a rejection, the removal of the
  local file is refused, and the file is still there after the error has been raised.
\<close>

theorem store_into_file_rejected_file_stays_counterexample:
  "fst (store_into_file (example_storage [quiet_provider] reject_all) local_info writing_body ()
      protected_disk) = Inl (SpamMediaException ''M_FORBIDDEN'') \<and>
   files (snd (snd (store_into_file (example_storage [quiet_provider] reject_all) local_info
      writing_body () protected_disk))) ''/m/lc/abc'' = Some ''new''"
  by (simp add: model_defs example_defs)

theorem store_into_file_spam_gate_witness:
  "fst (store_into_file (example_storage [quiet_provider] reject_all) local_info writing_body ()
      empty_disk) = Inl (SpamMediaException ''M_FORBIDDEN'') \<and>
   trace (snd (snd (store_into_file (example_storage [quiet_provider] reject_all) local_info
      writing_body () empty_disk))) =
     [Makedirs ''/m/lc'', OpenWrite ''/m/lc/abc'', CloseWrite ''/m/lc/abc'',
      SpamCheck ''/m/lc/abc'', Remove ''/m/lc/abc''] \<and>
   files (snd (snd (store_into_file (example_storage [quiet_provider] reject_all) local_info
      writing_body () empty_disk))) ''/m/lc/abc'' = None \<and>
   fst (store_into_file (example_storage [quiet_provider] accept_all) local_info writing_body ()
      empty_disk) = Inr ''/m/lc/abc''"
proof -
  let ?f = "\<lparr>name = ''/m/lc/abc'', data = [], pos = 0\<rparr>"
  have body: "writing_body (?f, ''/m/lc/abc'') () = (None, file_write ''new'' ?f, ())"
    by (simp add: writing_body_def)
  let ?R = "store_into_file (example_storage [quiet_provider] reject_all) local_info writing_body ()
      empty_disk"
  let ?A = "store_into_file (example_storage [quiet_provider] accept_all) local_info writing_body ()
      empty_disk"
  have runR: "?R = (fst ?R, fst (snd ?R), snd (snd ?R))"
    by (simp only: prod.collapse)
  have runA: "?A = (fst ?A, fst (snd ?A), snd (snd ?A))"
    by (simp only: prod.collapse)
  have vR: "check_media_file_for_spam (example_storage [quiet_provider] reject_all)
      ((files empty_disk)(''/m/lc/abc'' \<mapsto> data (file_write ''new'' ?f)))
      \<lparr>wrapper_path = ''/m/lc/abc''\<rparr> local_info = Inr (Rejected ''M_FORBIDDEN'' [])"
    by (simp add: example_storage_def reject_all_def)
  have vA: "check_media_file_for_spam (example_storage [quiet_provider] accept_all)
      ((files empty_disk)(''/m/lc/abc'' \<mapsto> data (file_write ''new'' ?f)))
      \<lparr>wrapper_path = ''/m/lc/abc''\<rparr> local_info = Inr NOT_SPAM"
    by (simp add: example_storage_def accept_all_def)
  show ?thesis
    using store_into_file_spam_gate [OF enter_example body vR refl runR]
      store_into_file_spam_gate [OF enter_example body vA refl runA]
    by (simp add: empty_disk_def os_path_dirname_def example_storage_def quiet_provider_def)
qed

section \<open>\<open>store_file\<close>\<close>

lemma file_write_at_end:
  "pos f = length (data f) \<Longrightarrow>
   file_write b f = f\<lparr>data := data f @ b, pos := pos f + length b\<rparr>"
  by (simp add: file_write_def Let_def)

lemma write_file_synchronously_eq:
  "write_file_synchronously source dest =
     (source\<lparr>pos := length (data source)\<rparr>, file_write (data source) dest)"
  by (simp add: write_file_synchronously_def shutil_copyfileobj_def file_seek_def)

lemma store_file_body:
  "(\<lambda>(f, fname) src. let (src', f') = write_to_file src f in (None, f', src'))
      (\<lparr>name = n, data = [], pos = 0\<rparr>, n) source =
   (None, \<lparr>name = n, data = data source, pos = length (data source)\<rparr>,
    source\<lparr>pos := length (data source)\<rparr>)"
  by (simp add: write_to_file_def write_file_synchronously_eq file_write_at_end)

lemma store_into_file_enter_again:
  assumes enter: "store_into_file_enter ms fi w = (Inr (f, fname), w1)"
    and d: "dirs w' = dirs w1" and u: "unwritable w' = unwritable w"
  shows "fst (store_into_file_enter ms fi w') = Inr (f, fname)"
proof -
  note e = store_into_file_enter_Inr [OF enter]
  have n: "fname = resolved_fname ms fi" and f: "f = \<lparr>name = fname, data = [], pos = 0\<rparr>"
    and nd: "fname \<noteq> []" "last fname \<noteq> CHR ''/''" "fname \<notin> dirs w1" "fname \<notin> unwritable w"
    and isd: "is_dir w1 (os_path_dirname fname)"
    using e by blast+
  have d1: "dirs w1 = dirs w \<union> set (parents (os_path_dirname fname))"
    using e by simp
  let ?d = "os_path_dirname fname"
  have dne: "?d \<noteq> []" using isd by (simp add: is_dir_def)
  have miss: "filter (\<lambda>p. p \<notin> dirs w') (parents ?d) = []"
    using d d1 by (auto simp: filter_empty_conv)
  have mk: "os_makedirs ?d w' = (Inr (), emit (Makedirs ?d) w')"
    using dne by (simp add: os_makedirs_def Let_def miss emit_def)
  let ?w0 = "emit (Makedirs ?d) w'"
  have isd': "is_dir ?w0 ?d"
    using isd d by (simp add: is_dir_def emit_def)
  have "open_wb fname ?w0 =
      (Inr f, (emit (OpenWrite fname) ?w0)\<lparr>files := (files ?w0)(fname \<mapsto> [])\<rparr>)"
    using nd isd' d u f by (simp add: open_wb_def Let_def emit_def)
  with mk show ?thesis
    unfolding store_into_file_enter_def Let_def resolved_fname_def [symmetric] n [symmetric]
    by simp
qed

lemma store_into_file_succeeds:
  assumes enter: "store_into_file_enter ms fi w = (Inr (f, fname), w1)"
    and body: "body (f, fname) c = (None, f', c')"
    and verdict: "check_media_file_for_spam ms ((files w)(fname \<mapsto> data f'))
                    \<lparr>wrapper_path = fname\<rparr> fi = Inr NOT_SPAM"
    and allok: "\<forall>p \<in> set (storage_providers ms).
                  provider_store_file p (file_info_to_path (filepaths ms) fi) fi = None"
  shows "fst (store_into_file ms fi body c w) = Inr fname \<and>
         fst (snd (store_into_file ms fi body c w)) = c' \<and>
         files (snd (snd (store_into_file ms fi body c w))) = (files w)(fname \<mapsto> data f') \<and>
         dirs (snd (snd (store_into_file ms fi body c w))) = dirs w1 \<and>
         unwritable (snd (snd (store_into_file ms fi body c w))) = unwritable w"
proof -
  let ?path = "file_info_to_path (filepaths ms) fi"
  let ?w0 = "emit (SpamCheck fname) (closed_world fname f' w)"
  obtain r2 w2 where tr:
    "store_into_file_try ms fi ?path fname None f' w1 = (r2, w2)"
    by (cases "store_into_file_try ms fi ?path fname None f' w1")
  have "(r2, w2) = store_to_providers (storage_providers ms) ?path fi ?w0"
    using tr unfolding store_into_file_try_eq [OF enter] verdict by simp
  then have r2: "r2 = Inr ()"
    using store_to_providers_all_ok [OF allok, of ?w0] by simp
  have w2: "files w2 = (files w)(fname \<mapsto> data f')" "dirs w2 = dirs w1"
    "unwritable w2 = unwritable w"
    using store_into_file_try_world [OF enter tr] by simp_all
  have "store_into_file ms fi body c w = (Inr fname, c', w2)"
    using store_into_file_eq [where body = body and c = c, OF enter body tr] r2 by simp
  with w2 show ?thesis by simp
qed

text \<open>
  Claim C8. \<open>_write_file_synchronously\<close> seeks the source to offset 0 before copying, so
  whatever the position of the source, the source is left at its end and, for a destination
  positioned at its end (as a file just opened for writing is), the bytes added to the
  destination are the whole contents of the source; copying again from the same source handle
  adds the same bytes. For \<open>store_file\<close>: after a successful store the local file holds the
  whole contents of the source, and storing again with the same source handle (now
  positioned at its end) succeeds and leaves the same bytes in the file.
\<close>

theorem store_file_rewinds_source:
  "fst (write_file_synchronously source dest) = source\<lparr>pos := length (data source)\<rparr> \<and>
   (pos dest = length (data dest) \<longrightarrow>
      data (snd (write_file_synchronously source dest)) = data dest @ data source) \<and>
   (pos dest2 = length (data dest2) \<longrightarrow>
      data (snd (write_file_synchronously (fst (write_file_synchronously source dest)) dest2)) =
        data dest2 @ data source) \<and>
   (store_file ms source fi w = (Inr fname, source', w') \<longrightarrow>
      files w' fname = Some (data source) \<and>
      data source' = data source \<and>
      fst (store_file ms source' fi w') = Inr fname \<and>
      files (snd (snd (store_file ms source' fi w'))) fname = Some (data source))"
proof -
  let ?B = "\<lambda>(f, fname) src. let (src', f') = write_to_file src f in (None :: exc option, f', src')"
  let ?n = "resolved_fname ms fi"
  have retry: "files w' fname = Some (data source) \<and>
      data source' = data source \<and>
      fst (store_file ms source' fi w') = Inr fname \<and>
      files (snd (snd (store_file ms source' fi w'))) fname = Some (data source)"
    if run: "store_file ms source fi w = (Inr fname, source', w')"
  proof -
    have run': "store_into_file ms fi ?B source w = (Inr fname, source', w')"
      using run by (simp add: store_file_def)
    let ?f0 = "\<lparr>name = fname, data = [], pos = 0\<rparr>"
    let ?f1 = "\<lparr>name = fname, data = data source, pos = length (data source)\<rparr>"
    note s = store_into_file_success [OF run']
    have en: "fst (store_into_file_enter ms fi w) = Inr (?f0, fname)"
      using s by blast
    then obtain w1 where enter: "store_into_file_enter ms fi w = (Inr (?f0, fname), w1)"
      by (cases "store_into_file_enter ms fi w") auto
    have allok: "\<forall>p \<in> set (storage_providers ms).
          provider_store_file p (file_info_to_path (filepaths ms) fi) fi = None"
      using s by blast
    have verdict: "check_media_file_for_spam ms ((files w)(fname \<mapsto> data ?f1))
          \<lparr>wrapper_path = fname\<rparr> fi = Inr NOT_SPAM"
      using s by (auto simp: write_to_file_def write_file_synchronously_eq file_write_at_end)
    have first: "fst (snd (store_into_file ms fi ?B source w)) = source\<lparr>pos := length (data source)\<rparr>"
      "files (snd (snd (store_into_file ms fi ?B source w))) = (files w)(fname \<mapsto> data ?f1)"
      "dirs (snd (snd (store_into_file ms fi ?B source w))) = dirs w1"
      "unwritable (snd (snd (store_into_file ms fi ?B source w))) = unwritable w"
      using store_into_file_succeeds [where body = ?B and c = source, OF enter store_file_body verdict allok]
      by simp_all
    have src: "source' = source\<lparr>pos := length (data source)\<rparr>"
      and fw: "files w' = (files w)(fname \<mapsto> data source)"
      and dw: "dirs w' = dirs w1" and uw: "unwritable w' = unwritable w"
      using first run' by simp_all
    have en2: "fst (store_into_file_enter ms fi w') = Inr (?f0, fname)"
      by (rule store_into_file_enter_again [OF enter dw uw])
    then obtain w1' where enter2: "store_into_file_enter ms fi w' = (Inr (?f0, fname), w1')"
      by (cases "store_into_file_enter ms fi w'") auto
    have verdict2: "check_media_file_for_spam ms
          ((files w')(fname \<mapsto> data \<lparr>name = fname, data = data source', pos = length (data source')\<rparr>))
          \<lparr>wrapper_path = fname\<rparr> fi = Inr NOT_SPAM"
      using verdict by (simp add: fw src)
    have second: "fst (store_into_file ms fi ?B source' w') = Inr fname"
      "files (snd (snd (store_into_file ms fi ?B source' w'))) = (files w')(fname \<mapsto> data source')"
      using store_into_file_succeeds [where body = ?B and c = source', OF enter2 store_file_body verdict2 allok]
      by simp_all
    show ?thesis
      using second fw src by (simp add: store_file_def)
  qed
  show ?thesis
    using retry by (simp add: write_file_synchronously_eq file_write_at_end)
qed

theorem store_file_rewinds_source_witness:
  "fst (store_file (example_storage [quiet_provider] accept_all) example_source local_info
      empty_disk) = Inr ''/m/lc/abc'' \<and>
   files (snd (snd (store_file (example_storage [quiet_provider] accept_all) example_source
      local_info empty_disk))) ''/m/lc/abc'' = Some ''0123456789'' \<and>
   files (snd (snd (store_file (example_storage [quiet_provider] accept_all)
      (fst (snd (store_file (example_storage [quiet_provider] accept_all) example_source
         local_info empty_disk)))
      local_info
      (snd (snd (store_file (example_storage [quiet_provider] accept_all) example_source
         local_info empty_disk)))))) ''/m/lc/abc'' = Some ''0123456789''"
proof -
  let ?R = "store_file (example_storage [quiet_provider] accept_all) example_source local_info
      empty_disk"
  have "fst ?R = Inr ''/m/lc/abc''"
    by (simp add: store_file_def write_to_file_def write_file_synchronously_def
        shutil_copyfileobj_def file_seek_def model_defs example_defs example_source_def)
  then have run: "?R = (Inr ''/m/lc/abc'', fst (snd ?R), snd (snd ?R))"
    by (metis prod.collapse)
  have d: "data example_source = ''0123456789''"
    by (simp add: example_source_def)
  have first: "fst ?R = Inr ''/m/lc/abc''"
    using run by (metis fst_conv)
  note inst = store_file_rewinds_source [where source = example_source
        and ms = "example_storage [quiet_provider] accept_all" and fi = local_info
        and w = empty_disk and fname = "''/m/lc/abc''" and source' = "fst (snd ?R)"
        and w' = "snd (snd ?R)"]
  from inst have imp: "?R = (Inr ''/m/lc/abc'', fst (snd ?R), snd (snd ?R)) \<longrightarrow>
      files (snd (snd ?R)) ''/m/lc/abc'' = Some (data example_source) \<and>
      data (fst (snd ?R)) = data example_source \<and>
      fst (store_file (example_storage [quiet_provider] accept_all) (fst (snd ?R)) local_info
        (snd (snd ?R))) = Inr ''/m/lc/abc'' \<and>
      files (snd (snd (store_file (example_storage [quiet_provider] accept_all) (fst (snd ?R))
        local_info (snd (snd ?R))))) ''/m/lc/abc'' = Some (data example_source)"
    by (rule conjunct2 [OF conjunct2 [OF conjunct2]])
  from mp [OF imp run] have
    a: "files (snd (snd ?R)) ''/m/lc/abc'' = Some (data example_source)" and
    b: "files (snd (snd (store_file (example_storage [quiet_provider] accept_all) (fst (snd ?R))
        local_info (snd (snd ?R))))) ''/m/lc/abc'' = Some (data example_source)"
    by (rule conjunct1, rule conjunct2 [OF conjunct2 [OF conjunct2]])
  show ?thesis
    using first a b unfolding d by (intro conjI)
qed

end
